theory Spec2Isabelle
  imports Complex_Main
begin

section \<open>JavaScript values used by the settings and request code\<close>

text \<open>
  Strings are lists of 8-bit code units (\<open>string\<close>): header names and values reach the
  request object as Latin-1 text, one character per byte.  A thrown exception is a value
  of \<open>js_error\<close>; a function that may throw returns \<open>js_error + 'a\<close> with \<open>Inl\<close> for
  the exception.
\<close>

datatype js_error = TypeError string | Error string

text \<open>A JavaScript number: a finite double is a real number, the rest are named.\<close>

datatype jsnum = Finite real | PosInf | NegInf | NaN

text \<open>\<open>i < val\<close> for a hop index \<open>i\<close> (a non-negative integer) and a number \<open>val\<close>.\<close>

fun js_less_idx :: "nat \<Rightarrow> jsnum \<Rightarrow> bool" where
  "js_less_idx i (Finite x) = (real i < x)"
| "js_less_idx i PosInf = True"
| "js_less_idx i NegInf = False"
| "js_less_idx i NaN = False"

text \<open>A trust function takes the address of a hop and its index.\<close>

type_synonym trustfn = "string \<Rightarrow> nat \<Rightarrow> bool"

section \<open>utils.js: the compilers of settings\<close>

text \<open>The values \<open>compileTrust\<close> tells apart, by \<open>typeof\<close> and identity.\<close>

datatype trust_setting =
    TFun trustfn
  | TBool bool
  | TNum jsnum
  | TStr string
  | TList "string list"
  | TUndefined
  | TNull

text \<open>
  \<open>match_sep s\<close> is the regular expression \<open>/ *, */\<close> matched at the start of \<open>s\<close>: spaces
  (U+0020 only), one comma, spaces.  Both stars are greedy and no shorter run of spaces can
  reach a comma, so the match is unique; the result is the text after it.
\<close>

definition match_sep :: "string \<Rightarrow> string option" where
  "match_sep s =
     (case dropWhile (\<lambda>c. c = CHR '' '') s of
        [] \<Rightarrow> None
      | c # r \<Rightarrow> if c = CHR '','' then Some (dropWhile (\<lambda>c. c = CHR '' '') r) else None)"

lemma match_sep_shorter: "match_sep s = Some r \<Longrightarrow> length r < length s"
proof -
  assume m: "match_sep s = Some r"
  then obtain c t where d: "dropWhile (\<lambda>c. c = CHR '' '') s = c # t"
    and r: "r = dropWhile (\<lambda>c. c = CHR '' '') t"
    by (auto simp: match_sep_def split: list.splits if_splits)
  have "length r \<le> length t" using r by (simp add: length_dropWhile_le)
  moreover have "length (c # t) \<le> length s"
    using d length_dropWhile_le [of "\<lambda>c. c = CHR '' ''" s] by simp
  ultimately show ?thesis by simp
qed

text \<open>
  The loop of \<open>String.prototype.split\<close> with a regular expression: \<open>acc\<close> is the piece
  since the last separator, the second argument the text from the position \<open>q\<close> on.  The
  separator is tried at every position from left to right; where it matches, the piece is
  closed and the scan resumes after the match.  The piece after the last separator closes
  the list.  The separator never matches the empty string, so \<open>''''\<close> splits into \<open>['''']\<close>.
\<close>

function split_loop :: "string \<Rightarrow> string \<Rightarrow> string list" where
  "split_loop acc [] = [acc]"
| "split_loop acc (c # cs) =
     (case match_sep (c # cs) of
        Some r \<Rightarrow> acc # split_loop [] r
      | None \<Rightarrow> split_loop (acc @ [c]) cs)"
  by pat_completeness auto
termination
  by (relation "measure (\<lambda>(acc, s). length s)") (auto dest: match_sep_shorter)

definition split_comma :: "string \<Rightarrow> string list" where
  "split_comma val = split_loop [] val"

text \<open>
  The two functions that \<open>compileTrust\<close> builds itself: \<open>function () { return true }\<close> for
  \<open>true\<close>, and \<open>function (a, i) { return i < val }\<close> for a number \<open>val\<close>.
\<close>

definition trust_all :: trustfn where
  "trust_all a i = True"

definition trust_hops :: "jsnum \<Rightarrow> trustfn" where
  "trust_hops val a i = js_less_idx i val"

text \<open>
  \<open>proxyaddr.compile\<close> belongs to the package proxy-addr; it is the parameter \<open>pcompile\<close>,
  from a list of addresses and ranges to a trust function or an exception.  A string is
  split first; \<open>false\<close>, \<open>undefined\<close> and \<open>null\<close> stand for the empty list.
\<close>

fun compileTrust :: "(string list \<Rightarrow> js_error + trustfn) \<Rightarrow> trust_setting \<Rightarrow> js_error + trustfn" where
  "compileTrust pcompile (TFun f) = Inr f"
| "compileTrust pcompile (TBool True) = Inr trust_all"
| "compileTrust pcompile (TNum n) = Inr (trust_hops n)"
| "compileTrust pcompile (TStr s) = pcompile (split_comma s)"
| "compileTrust pcompile (TList xs) = pcompile xs"
| "compileTrust pcompile (TBool False) = pcompile []"
| "compileTrust pcompile TUndefined = pcompile []"
| "compileTrust pcompile TNull = pcompile []"

text \<open>
  A compiled setting is a function; the functions that the compilers hand out are named.
  A stored setting is a value as it was given to \<open>app.set\<close>, or a compiled function.
\<close>

datatype compiled =
    TrustFn trustfn
  | Wetag
  | Etag
  | QuerystringParse
  | ParseExtendedQueryString
  | NewObject

datatype stored = Raw trust_setting | Compiled compiled

text \<open>
  Both compilers pass a function through, and throw on a value they do not know; the text
  of the value, which ends the message, is left out.
\<close>

fun compileETag :: "trust_setting \<Rightarrow> js_error + stored" where
  "compileETag (TFun f) = Inr (Raw (TFun f))"
| "compileETag (TBool True) = Inr (Compiled Wetag)"
| "compileETag (TBool False) = Inr (Raw TUndefined)"
| "compileETag (TStr s) =
     (if s = ''strong'' then Inr (Compiled Etag)
      else if s = ''weak'' then Inr (Compiled Wetag)
      else Inl (TypeError ''unknown value for etag function: ''))"
| "compileETag v = Inl (TypeError ''unknown value for etag function: '')"

fun compileQueryParser :: "trust_setting \<Rightarrow> js_error + stored" where
  "compileQueryParser (TFun f) = Inr (Raw (TFun f))"
| "compileQueryParser (TBool True) = Inr (Compiled QuerystringParse)"
| "compileQueryParser (TBool False) = Inr (Compiled NewObject)"
| "compileQueryParser (TStr s) =
     (if s = ''extended'' then Inr (Compiled ParseExtendedQueryString)
      else if s = ''simple'' then Inr (Compiled QuerystringParse)
      else Inl (TypeError ''unknown value for query parser function: ''))"
| "compileQueryParser v = Inl (TypeError ''unknown value for query parser function: '')"

section \<open>String operations of the request code\<close>

text \<open>
  \<open>s.indexOf(c, pos)\<close> for a one-character search string: the index of the first \<open>c\<close> at or
  after \<open>pos\<close>, or \<open>-1\<close>.
\<close>

primrec find_char :: "char \<Rightarrow> string \<Rightarrow> nat option" where
  "find_char c [] = None"
| "find_char c (x # xs) = (if x = c then Some 0 else map_option Suc (find_char c xs))"

definition indexOf :: "string \<Rightarrow> char \<Rightarrow> nat \<Rightarrow> int" where
  "indexOf s c pos =
     (case find_char c (drop pos s) of None \<Rightarrow> - 1 | Some k \<Rightarrow> int (pos + k))"

text \<open>
  \<open>s.substring(a, b)\<close>: both ends are clamped to \<open>0 .. length s\<close> and swapped when
  \<open>a > b\<close>.
\<close>

definition clamp_index :: "string \<Rightarrow> int \<Rightarrow> nat" where
  "clamp_index s i = min (nat i) (length s)"

definition substring :: "string \<Rightarrow> int \<Rightarrow> int \<Rightarrow> string" where
  "substring s a b =
     (let from = min (clamp_index s a) (clamp_index s b);
          to = max (clamp_index s a) (clamp_index s b)
      in take (to - from) (drop from s))"

text \<open>
  White space and line terminators among the 8-bit code units: TAB, LF, VT, FF, CR, SP and
  the no-break space U+00A0.  \<open>trim\<close> removes them at both ends, \<open>trimRight\<close> at the end.
\<close>

definition js_ws :: "char \<Rightarrow> bool" where
  "js_ws c = (c \<in> {CHR 0x09, CHR 0x0A, CHR 0x0B, CHR 0x0C, CHR 0x0D, CHR 0x20, CHR 0xA0})"

definition trimRight :: "string \<Rightarrow> string" where
  "trimRight s = rev (dropWhile js_ws (rev s))"

definition trim :: "string \<Rightarrow> string" where
  "trim s = dropWhile js_ws (trimRight s)"

text \<open>
  \<open>toLowerCase\<close> on 8-bit code units: the letters A to Z, and the capital letters of the
  Latin-1 supplement (U+00C0 to U+00DE without the multiplication sign U+00D7), move up by
  32.
\<close>

definition lower_char :: "char \<Rightarrow> char" where
  "lower_char c =
     (let n = (of_char c :: nat)
      in if (65 \<le> n \<and> n \<le> 90) \<or> (192 \<le> n \<and> n \<le> 222 \<and> n \<noteq> 215)
         then char_of (n + 32) else c)"

definition toLowerCase :: "string \<Rightarrow> string" where
  "toLowerCase s = map lower_char s"

text \<open>\<open>s.split(d)\<close> for a one-character separator.\<close>

fun split_on :: "char \<Rightarrow> string \<Rightarrow> string list" where
  "split_on d [] = [[]]"
| "split_on d (c # cs) =
     (if c = d then [] # split_on d cs
      else (case split_on d cs of [] \<Rightarrow> [[c]] | p # ps \<Rightarrow> (c # p) # ps))"

text \<open>
  \<open>xs.slice(k)\<close> for an integer \<open>k\<close>: a negative \<open>k\<close> counts from the end, and the start
  is clamped to \<open>0 .. length xs\<close>.
\<close>

definition slice :: "'a list \<Rightarrow> int \<Rightarrow> 'a list" where
  "slice xs k =
     (if k < 0 then drop (nat (max (int (length xs) + k) 0)) xs else drop (nat k) xs)"

text \<open>\<open>a || b\<close> where \<open>a\<close> is a string or undefined: the empty string is falsy.\<close>

definition falsy_str :: "string option \<Rightarrow> bool" where
  "falsy_str v = (case v of None \<Rightarrow> True | Some s \<Rightarrow> s = [])"

definition or_else :: "string option \<Rightarrow> string option \<Rightarrow> string option" where
  "or_else a b = (if falsy_str a then b else a)"

section \<open>request.js: the getters of a request\<close>

text \<open>
  The request as the getters read it: the socket (\<open>this.connection\<close>), the header object,
  the request line, the response (\<open>this.res\<close>) and the two settings of the application
  (\<open>this.app.get\<close>) they use.  \<open>headers\<close> is the property read \<open>this.headers[k]\<close>, with \<open>None\<close>
  for undefined.
\<close>

record request =
  encrypted :: bool
  remoteAddress :: string
  headers :: "string \<rightharpoonup> string"
  req_method :: string
  res_statusCode :: int
  res_get :: "string \<rightharpoonup> string"
  trust_proxy_fn :: trustfn
  subdomain_offset :: int

text \<open>The argument of \<open>req.get\<close>, by what the two guards tell apart.\<close>

datatype name_arg =
    NUndefined
  | NNull
  | NBool bool
  | NNum jsnum
  | NStr string
  | NObject

fun falsy_arg :: "name_arg \<Rightarrow> bool" where
  "falsy_arg NUndefined = True"
| "falsy_arg NNull = True"
| "falsy_arg (NBool b) = (\<not> b)"
| "falsy_arg (NNum n) = (n = Finite 0 \<or> n = NaN)"
| "falsy_arg (NStr s) = (s = [])"
| "falsy_arg NObject = False"

fun header :: "request \<Rightarrow> name_arg \<Rightarrow> js_error + string option" where
  "header req name =
     (if falsy_arg name then Inl (TypeError ''name argument is required to req.get'')
      else case name of
        NStr s \<Rightarrow>
          (let lc = toLowerCase s
           in if lc = ''referer'' \<or> lc = ''referrer''
              then Inr (or_else (headers req ''referrer'') (headers req ''referer''))
              else Inr (headers req lc))
      | _ \<Rightarrow> Inl (TypeError ''name must be a string to req.get''))"

definition protocol :: "request \<Rightarrow> js_error + string" where
  "protocol req =
     (let proto = (if encrypted req then ''https'' else ''http'');
          trust = trust_proxy_fn req
      in if \<not> trust (remoteAddress req) 0 then Inr proto
         else case header req (NStr ''X-Forwarded-Proto'') of
           Inl e \<Rightarrow> Inl e
         | Inr h \<Rightarrow>
             (let hdr = (case or_else h (Some proto) of Some v \<Rightarrow> v | None \<Rightarrow> proto);
                  index = indexOf hdr (CHR '','') 0
              in Inr (if index \<noteq> - 1 then trim (substring hdr 0 index) else trim hdr)))"

text \<open>The host string chosen by the first half of the \<open>hostname\<close> getter.\<close>

definition chosen_host :: "request \<Rightarrow> js_error + string option" where
  "chosen_host req =
     (let trust = trust_proxy_fn req
      in case header req (NStr ''X-Forwarded-Host'') of
        Inl e \<Rightarrow> Inl e
      | Inr host \<Rightarrow>
          (case host of
             None \<Rightarrow> header req (NStr ''Host'')
           | Some h \<Rightarrow>
               if h = [] \<or> \<not> trust (remoteAddress req) 0 then header req (NStr ''Host'')
               else if indexOf h (CHR '','') 0 \<noteq> - 1
                 then Inr (Some (trimRight (substring h 0 (indexOf h (CHR '','') 0))))
                 else Inr (Some h)))"

text \<open>The second half: the port is cut off a host string that is not empty.\<close>

definition strip_port :: "string \<Rightarrow> string" where
  "strip_port host =
     (let offset = (case host of
                      c # _ \<Rightarrow> if c = CHR ''['' then indexOf host (CHR '']'') 0 + 1 else 0
                    | [] \<Rightarrow> 0);
          index = indexOf host (CHR '':'') (nat offset)
      in if index \<noteq> - 1 then substring host 0 index else host)"

definition hostname :: "request \<Rightarrow> js_error + string option" where
  "hostname req =
     (case chosen_host req of
        Inl e \<Rightarrow> Inl e
      | Inr host \<Rightarrow> if falsy_str host then Inr None else Inr (map_option strip_port host))"

text \<open>\<open>isIP\<close> is \<open>net.isIP\<close> of the platform: 4, 6 or 0.\<close>

definition subdomains :: "(string \<Rightarrow> nat) \<Rightarrow> request \<Rightarrow> js_error + string list" where
  "subdomains isIP req =
     (case hostname req of
        Inl e \<Rightarrow> Inl e
      | Inr hn \<Rightarrow>
          (case hn of
             None \<Rightarrow> Inr []
           | Some h \<Rightarrow>
               if h = [] then Inr []
               else (let offset = subdomain_offset req;
                         subs = (if isIP h = 0 then rev (split_on (CHR ''.'') h) else [h])
                     in Inr (slice subs offset))))"

text \<open>
  \<open>evaluator\<close> is the function of the package fresh: the request headers, then the
  response's \<open>ETag\<close> and \<open>Last-Modified\<close>.
\<close>

type_synonym evaluator = "(string \<rightharpoonup> string) \<Rightarrow> string option \<Rightarrow> string option \<Rightarrow> bool"

definition fresh :: "evaluator \<Rightarrow> request \<Rightarrow> bool" where
  "fresh ev req =
     (let m = req_method req; status = res_statusCode req
      in if m \<noteq> ''GET'' \<and> m \<noteq> ''HEAD'' then False
         else if (200 \<le> status \<and> status < 300) \<or> 304 = status
           then ev (headers req) (res_get req ''ETag'') (res_get req ''Last-Modified'')
           else False)"

definition stale :: "evaluator \<Rightarrow> request \<Rightarrow> bool" where
  "stale ev req = (\<not> fresh ev req)"

section \<open>application.js: the settings of an application\<close>

text \<open>
  Settings objects live in a store and are named by references; an application is named
  by the reference of its settings object.  A settings object has its own properties, its
  own property \<open>@@symbol:trust_proxy_default\<close> (defined with \<open>Object.defineProperty\<close>, hence
  not writable) when it has one, and its prototype: the settings object of the parent
  once the application is mounted, \<open>Object.prototype\<close> (\<open>None\<close>) before.
\<close>

type_synonym ref = nat

record settings_obj =
  own :: "string \<rightharpoonup> stored"
  default_marker :: "bool option"
  proto :: "ref option"

type_synonym heap = "ref \<Rightarrow> settings_obj"

definition trustProxyDefaultSymbol :: string where
  "trustProxyDefaultSymbol = ''@@symbol:trust_proxy_default''"

text \<open>
  A property read \<open>obj[k]\<close> walks the prototype chain.  The chain of a JavaScript object is
  finite; on a store with a cyclic chain the walk has no result (\<open>None\<close>).  \<open>sel\<close> reads
  the property off one object.
\<close>

partial_function (option) chain_lookup ::
  "(settings_obj \<Rightarrow> 'a option) \<Rightarrow> heap \<Rightarrow> ref \<Rightarrow> 'a option option" where
  "chain_lookup sel h r =
     (case sel (h r) of
        Some v \<Rightarrow> Some (Some v)
      | None \<Rightarrow> (case proto (h r) of None \<Rightarrow> Some None | Some p \<Rightarrow> chain_lookup sel h p))"

text \<open>\<open>app.set(setting)\<close> with one argument, and \<open>app.get(setting)\<close>: \<open>this.settings[setting]\<close>.\<close>

definition app_get :: "heap \<Rightarrow> ref \<Rightarrow> string \<Rightarrow> stored option option" where
  "app_get h a setting = chain_lookup (\<lambda>obj. own obj setting) h a"

text \<open>\<open>typeof v === "function"\<close> for the result of a property read.\<close>

fun is_function :: "stored option \<Rightarrow> bool" where
  "is_function (Some (Raw (TFun f))) = True"
| "is_function (Some (Compiled c)) = True"
| "is_function v = False"

text \<open>
  \<open>app.set(setting, val)\<close>.  The assignment \<open>this.settings[setting] = val\<close> writes an own
  property; for the name of the marker it throws, the file being in strict mode and the
  marker not writable.  The inner \<open>this.set\<close> of a compiled function is an assignment, its
  name matching no case of the switch.  When a compiler throws, the value is already
  written and the rest of the call does not happen.  Setting names are ordinary property
  names: the accessor \<open>__proto__\<close> of \<open>Object.prototype\<close> is not among them.
\<close>

definition assign :: "heap \<Rightarrow> ref \<Rightarrow> string \<Rightarrow> stored \<Rightarrow> heap" where
  "assign h a k v = h(a := (h a)\<lparr>own := (own (h a))(k \<mapsto> v)\<rparr>)"

definition define_marker :: "heap \<Rightarrow> ref \<Rightarrow> bool \<Rightarrow> heap" where
  "define_marker h a b = h(a := (h a)\<lparr>default_marker := Some b\<rparr>)"

definition app_set ::
  "(string list \<Rightarrow> js_error + trustfn) \<Rightarrow> heap \<Rightarrow> ref \<Rightarrow> string \<Rightarrow> trust_setting
   \<Rightarrow> (js_error + unit) \<times> heap" where
  "app_set pcompile h a setting val =
     (if setting = trustProxyDefaultSymbol
      then (Inl (TypeError ''Cannot assign to read only property''), h)
      else
        let h1 = assign h a setting (Raw val)
        in if setting = ''etag'' then
             (case compileETag val of
                Inl e \<Rightarrow> (Inl e, h1)
              | Inr fn \<Rightarrow> (Inr (), assign h1 a ''etag fn'' fn))
           else if setting = ''query parser'' then
             (case compileQueryParser val of
                Inl e \<Rightarrow> (Inl e, h1)
              | Inr fn \<Rightarrow> (Inr (), assign h1 a ''query parser fn'' fn))
           else if setting = ''trust proxy'' then
             (case compileTrust pcompile val of
                Inl e \<Rightarrow> (Inl e, h1)
              | Inr fn \<Rightarrow>
                  (Inr (),
                   define_marker (assign h1 a ''trust proxy fn'' (Compiled (TrustFn fn))) a False))
           else (Inr (), h1))"

text \<open>
  The part of \<open>defaultConfiguration\<close> that sets up the trust proxy: the default \<open>false\<close> is
  set like any value, and the marker is then defined as \<open>true\<close>.
\<close>

definition default_trust_proxy ::
  "(string list \<Rightarrow> js_error + trustfn) \<Rightarrow> heap \<Rightarrow> ref \<Rightarrow> (js_error + unit) \<times> heap" where
  "default_trust_proxy pcompile h a =
     (case app_set pcompile h a ''trust proxy'' (TBool False) of
        (Inl e, h1) \<Rightarrow> (Inl e, h1)
      | (Inr u, h1) \<Rightarrow> (Inr (), define_marker h1 a True))"

text \<open>
  \<open>setPrototypeOf(obj, proto)\<close> throws when \<open>obj\<close> is on the chain of \<open>proto\<close>;
  \<open>on_chain h r t\<close> walks the chain of \<open>r\<close> for \<open>t\<close>.
\<close>

partial_function (option) on_chain :: "heap \<Rightarrow> ref \<Rightarrow> ref \<Rightarrow> bool option" where
  "on_chain h r t =
     (if r = t then Some True
      else case proto (h r) of None \<Rightarrow> Some False | Some p \<Rightarrow> on_chain h p t)"

text \<open>
  The listener of the \<open>mount\<close> event, on the settings.  The prototypes of the request, the
  response and the engines are set before that of the settings and form the same chains,
  so a cyclic mount throws before any prototype is set, and after the two deletions.
\<close>

definition delete_trust_proxy :: "heap \<Rightarrow> ref \<Rightarrow> heap" where
  "delete_trust_proxy h a =
     h(a := (h a)\<lparr>own := (own (h a))(''trust proxy'' := None, ''trust proxy fn'' := None)\<rparr>)"

definition onmount :: "heap \<Rightarrow> ref \<Rightarrow> ref \<Rightarrow> ((js_error + unit) \<times> heap) option" where
  "onmount h this parent =
     (case chain_lookup default_marker h this of
        None \<Rightarrow> None
      | Some marker \<Rightarrow>
          (case (if marker = Some True then app_get h parent ''trust proxy fn'' else Some None) of
             None \<Rightarrow> None
           | Some fn \<Rightarrow>
               (let h1 = (if marker = Some True \<and> is_function fn
                          then delete_trust_proxy h this else h)
                in case on_chain h1 parent this of
                     None \<Rightarrow> None
                   | Some True \<Rightarrow> Some (Inl (TypeError ''Cyclic __proto__ value''), h1)
                   | Some False \<Rightarrow>
                       Some (Inr (), h1(this := (h1 this)\<lparr>proto := Some parent\<rparr>)))))"

section \<open>application.js and view.js: rendering\<close>

text \<open>
  Code that runs for its effect is a function of the world \<open>'w\<close> it runs in (the disk, the
  engines, whatever the callbacks touch): it gives the new world and either returns or
  throws.
\<close>

type_synonym ('w, 'a) js = "'w \<Rightarrow> (js_error + 'a) \<times> 'w"

text \<open>A render callback is called as \<open>callback(err)\<close> or as \<open>callback(null, str)\<close>.\<close>

datatype cb_arg = CbError js_error | CbOk string

type_synonym 'w callback = "cb_arg \<Rightarrow> ('w, unit) js"

text \<open>The values of a plain object that the render options are tested for.\<close>

datatype jsval = VUndefined | VNull | VBool bool | VNum jsnum | VStr string | VObject

type_synonym jsobj = "string \<rightharpoonup> jsval"

fun truthy :: "jsval \<Rightarrow> bool" where
  "truthy VUndefined = False"
| "truthy VNull = False"
| "truthy (VBool b) = b"
| "truthy (VNum n) = (n \<noteq> Finite 0 \<and> n \<noteq> NaN)"
| "truthy (VStr s) = (s \<noteq> [])"
| "truthy VObject = True"

text \<open>\<open>v == null\<close>.\<close>

fun nullish :: "jsval \<Rightarrow> bool" where
  "nullish VUndefined = True"
| "nullish VNull = True"
| "nullish v = False"

text \<open>\<open>obj[k]\<close> on an object without inherited properties of that name.\<close>

definition get_field :: "jsobj \<Rightarrow> string \<Rightarrow> jsval" where
  "get_field obj k = (case obj k of None \<Rightarrow> VUndefined | Some v \<Rightarrow> v)"

text \<open>\<open>merge(a, b)\<close> of utils-merge: every key of \<open>b\<close> is assigned to \<open>a\<close>.\<close>

definition merge :: "jsobj \<Rightarrow> jsobj \<Rightarrow> jsobj" where
  "merge a b = a ++ b"

type_synonym 'w engine = "string option \<Rightarrow> jsobj \<Rightarrow> 'w callback \<Rightarrow> ('w, unit) js"

datatype view_root = RootStr string | RootArr "string list"

record 'w view =
  view_name :: string
  view_root :: view_root
  view_path :: "string option"
  view_engine :: "'w engine"

text \<open>
  What \<open>cache[name]\<close> can give when it is truthy: a view stored under that name, or, for the
  names that every plain object inherits, a member of \<open>Object.prototype\<close>.
\<close>

datatype 'w view_ref = AView "'w view" | ObjectMember string

definition object_prototype_names :: "string list" where
  "object_prototype_names =
     [''constructor'', ''__defineGetter__'', ''__defineSetter__'', ''hasOwnProperty'',
      ''__lookupGetter__'', ''__lookupSetter__'', ''isPrototypeOf'', ''propertyIsEnumerable'',
      ''toString'', ''valueOf'', ''__proto__'', ''toLocaleString'']"

type_synonym 'w view_cache = "string \<rightharpoonup> 'w view"

definition cache_get :: "'w view_cache \<Rightarrow> string \<Rightarrow> 'w view_ref option" where
  "cache_get cache name =
     (case cache name of
        Some v \<Rightarrow> Some (AView v)
      | None \<Rightarrow> if name \<in> set object_prototype_names then Some (ObjectMember name) else None)"

text \<open>
  \<open>view.render(options, callback)\<close>: \<open>View.prototype.render\<close> hands over to the engine; a
  member of \<open>Object.prototype\<close> has no \<open>render\<close>, and the call throws.
\<close>

fun view_render :: "'w view_ref \<Rightarrow> jsobj \<Rightarrow> 'w callback \<Rightarrow> ('w, unit) js" where
  "view_render (AView view) options callback =
     view_engine view (view_path view) options callback"
| "view_render (ObjectMember k) options callback =
     (\<lambda>w. (Inl (TypeError ''view.render is not a function''), w))"

definition tryRender :: "'w view_ref \<Rightarrow> jsobj \<Rightarrow> 'w callback \<Rightarrow> ('w, unit) js" where
  "tryRender view options callback w =
     (case view_render view options callback w of
        (Inl err, w') \<Rightarrow> callback (CbError err) w'
      | (Inr u, w') \<Rightarrow> (Inr u, w'))"

text \<open>
  The options of a render call: the own properties of the object, and its \<open>_locals\<close> when
  that is an object.  The environment is what \<open>render\<close> reads from the application: the
  setting \<open>view cache\<close>, the constructor stored under the setting \<open>view\<close> (applied to the
  name and to the settings \<open>view engine\<close> and \<open>views\<close> and the engines), and \<open>app.locals\<close>.
\<close>

record render_options =
  opt_fields :: jsobj
  opt_locals :: "jsobj option"

record 'w render_env =
  view_cache_enabled :: bool
  new_View :: "string \<Rightarrow> ('w, 'w view) js"
  app_locals :: jsobj

definition merged_options :: "'w render_env \<Rightarrow> render_options \<Rightarrow> jsobj" where
  "merged_options env opts =
     merge (case opt_locals opts of
              None \<Rightarrow> merge Map.empty (app_locals env)
            | Some l \<Rightarrow> merge (merge Map.empty (app_locals env)) l)
           (opt_fields opts)"

definition render_options_of :: "'w render_env \<Rightarrow> render_options \<Rightarrow> jsobj" where
  "render_options_of env opts =
     (let renderOptions = merged_options env opts
      in if nullish (get_field renderOptions ''cache'')
         then renderOptions(''cache'' \<mapsto> VBool (view_cache_enabled env))
         else renderOptions)"

definition dquote :: char where
  "dquote = CHR 0x22"

fun join :: "string \<Rightarrow> string list \<Rightarrow> string" where
  "join sep [] = []"
| "join sep [x] = x"
| "join sep (x # y # ys) = x @ sep @ join sep (y # ys)"

definition lookup_error :: "string \<Rightarrow> view_root \<Rightarrow> js_error" where
  "lookup_error name rt =
     (let dirs =
        (case rt of
           RootStr r \<Rightarrow> ''directory '' @ [dquote] @ r @ [dquote]
         | RootArr rs \<Rightarrow>
             if length rs > 1
             then ''directories '' @ [dquote] @ join ([dquote] @ '', '' @ [dquote]) (butlast rs)
                  @ [dquote] @ '' or '' @ [dquote] @ last rs @ [dquote]
             else ''directory '' @ [dquote] @ join '','' rs @ [dquote])
      in Error (''Failed to lookup view '' @ [dquote] @ name @ [dquote] @ '' in views '' @ dirs))"

text \<open>
  The state of a render call is the cache of the application and the world.  The engine
  and the callback run in the world and are taken not to touch the cache of this
  application; \<open>in_world\<close> puts their outcome beside a cache.  A call with the callback in
  the place of the options is a call with empty options.
\<close>

definition in_world :: "'c \<Rightarrow> (js_error + 'a) \<times> 'w \<Rightarrow> (js_error + 'a) \<times> ('c \<times> 'w)" where
  "in_world cache m = (case m of (r, w') \<Rightarrow> (r, (cache, w')))"

definition render ::
  "'w render_env \<Rightarrow> string \<Rightarrow> render_options \<Rightarrow> 'w callback
   \<Rightarrow> 'w view_cache \<times> 'w \<Rightarrow> (js_error + unit) \<times> ('w view_cache \<times> 'w)" where
  "render env name opts done = (\<lambda>(cache, w).
     let renderOptions = render_options_of env opts;
         view = (if truthy (get_field renderOptions ''cache'') then cache_get cache name else None)
     in case view of
          Some v \<Rightarrow> in_world cache (tryRender v renderOptions done w)
        | None \<Rightarrow>
            (case new_View env name w of
               (Inl e, w') \<Rightarrow> (Inl e, (cache, w'))
             | (Inr v, w') \<Rightarrow>
                 if falsy_str (view_path v)
                 then in_world cache (done (CbError (lookup_error name (view_root v))) w')
                 else in_world
                        (if truthy (get_field renderOptions ''cache'') then cache(name \<mapsto> v)
                         else cache)
                        (tryRender (AView v) renderOptions done w')))"

section \<open>Notions of the statements\<close>

text \<open>
  The words of the specification for the results of the getters: the base value of the
  protocol, the first comma-delimited token of a header, and the end of a leading bracketed
  literal of a host string (0 when it has none).
\<close>

definition base_protocol :: "request \<Rightarrow> string" where
  "base_protocol req = (if encrypted req then ''https'' else ''http'')"

definition first_token :: "string \<Rightarrow> string" where
  "first_token s = takeWhile (\<lambda>c. c \<noteq> CHR '','') s"

definition bracket_end :: "string \<Rightarrow> nat" where
  "bracket_end host =
     (case host of
        [] \<Rightarrow> 0
      | c # _ \<Rightarrow> if c = CHR ''['' \<and> CHR '']'' \<in> set host
                 then Suc (length (takeWhile (\<lambda>x. x \<noteq> CHR '']'') host)) else 0)"

text \<open>
  The prototype chain of \<open>r\<close> ends.  Every store that JavaScript can build has only such
  chains, \<open>setPrototypeOf\<close> refusing to close a cycle.
\<close>

inductive finite_chain :: "heap \<Rightarrow> ref \<Rightarrow> bool" where
  chain_end: "proto (h r) = None \<Longrightarrow> finite_chain h r"
| chain_step: "proto (h r) = Some p \<Longrightarrow> finite_chain h p \<Longrightarrow> finite_chain h r"



text \<open>
  \<open>later pcompile h h'\<close>: the store \<open>h'\<close> comes from \<open>h\<close> by calls of \<open>app.set\<close>, returning
  or throwing, on any application, name and value, and by mounts.
\<close>

inductive later :: "(string list \<Rightarrow> js_error + trustfn) \<Rightarrow> heap \<Rightarrow> heap \<Rightarrow> bool"
  for pcompile :: "string list \<Rightarrow> js_error + trustfn" where
  later_now: "later pcompile h h"
| later_set: "later pcompile h h1 \<Longrightarrow> later pcompile h (snd (app_set pcompile h1 b k v))"
| later_mount: "later pcompile h h1 \<Longrightarrow> onmount h1 t p = Some (r, h2) \<Longrightarrow> later pcompile h h2"

section \<open>Example values\<close>

text \<open>Example values: a trust function that rejects every hop, and a request.\<close>

definition trust_none :: trustfn where
  "trust_none a i = False"

definition example_request :: "bool \<Rightarrow> trustfn \<Rightarrow> (string \<rightharpoonup> string) \<Rightarrow> request" where
  "example_request enc trust hs =
     \<lparr>encrypted = enc, remoteAddress = ''10.0.0.1'', headers = hs, req_method = ''GET'',
      res_statusCode = 200, res_get = Map.empty, trust_proxy_fn = trust, subdomain_offset = 2\<rparr>"

text \<open>
  An \<open>isIP\<close> for the examples: it knows two addresses, written without brackets as
  \<open>net.isIP\<close> wants them.
\<close>

definition example_isIP :: "string \<Rightarrow> nat" where
  "example_isIP s =
     (if s = ''127.0.0.1'' then 4 else if s = ''::ffff:127.0.0.1'' then 6 else 0)"

text \<open>Two evaluators for the examples.\<close>

definition always_fresh :: evaluator where
  "always_fresh reqHeaders etag lastModified = True"

definition never_fresh :: evaluator where
  "never_fresh reqHeaders etag lastModified = False"

text \<open>
  Examples for \<open>tryRender\<close>: the world is the list of the calls of the callback; the engine
  throws.
\<close>

definition log_callback :: "cb_arg list callback" where
  "log_callback a w = (Inr (), w @ [a])"

definition throwing_engine :: "cb_arg list engine" where
  "throwing_engine p options callback w = (Inl (Error ''engine failed''), w)"

definition example_view :: "'w engine \<Rightarrow> string \<Rightarrow> bool \<Rightarrow> 'w view" where
  "example_view e name found =
     \<lparr>view_name = name, view_root = RootStr ''views'',
      view_path = (if found then Some (''views/'' @ name) else None), view_engine = e\<rparr>"







text \<open>
  Examples: a compiler for address lists, which throws on the entry \<open>bogus\<close> as
  \<open>proxyaddr.compile\<close> throws on what is no address; two applications at their defaults;
  the store after \<open>trust proxy\<close> is set to \<open>true\<close> on the first; and the store after a
  call \<open>set("trust proxy", "bogus")\<close> on the second.
\<close>

definition example_compile :: "string list \<Rightarrow> js_error + trustfn" where
  "example_compile xs =
     (if ''bogus'' \<in> set xs then Inl (TypeError ''invalid IP address: bogus'')
      else Inr (\<lambda>a i. a \<in> set xs))"

definition empty_store :: heap where
  "empty_store r = \<lparr>own = Map.empty, default_marker = None, proto = None\<rparr>"

definition two_apps :: heap where
  "two_apps =
     snd (default_trust_proxy example_compile
            (snd (default_trust_proxy example_compile empty_store 2)) 3)"

definition parent_trusting :: heap where
  "parent_trusting = snd (app_set example_compile two_apps 2 ''trust proxy'' (TBool True))"

definition rejected_set :: heap where
  "rejected_set =
     snd (app_set example_compile parent_trusting 3 ''trust proxy'' (TStr ''bogus''))"

section \<open>Properties of compileTrust\<close>

lemma match_sep_no_comma: "CHR '','' \<notin> set s \<Longrightarrow> match_sep s = None"
proof -
  assume n: "CHR '','' \<notin> set s"
  have "set (dropWhile (\<lambda>c. c = CHR '' '') s) \<subseteq> set s"
    by (rule set_dropWhileD [THEN subsetI])
  with n have "CHR '','' \<notin> set (dropWhile (\<lambda>c. c = CHR '' '') s)" by blast
  then show ?thesis
    by (auto simp: match_sep_def split: list.splits)
qed

lemma split_loop_no_comma: "CHR '','' \<notin> set s \<Longrightarrow> split_loop acc s = [acc @ s]"
proof (induction s arbitrary: acc)
  case Nil
  then show ?case by simp
next
  case (Cons c cs)
  then have "match_sep (c # cs) = None" by (intro match_sep_no_comma)
  with Cons show ?case by simp
qed













text \<open>
  C5.  For a number \<open>n\<close>, \<open>compileTrust\<close> returns the hop-count function: for every address
  it holds at hop \<open>i\<close> exactly when \<open>i < n\<close>.  With \<open>n = 2\<close> it trusts the hops 0 and 1 and
  rejects hop 2 and every later hop.
\<close>

theorem compileTrust_number:
  "compileTrust pc (TNum n) = Inr (trust_hops n)
   \<and> trust_hops n a i = js_less_idx i n
   \<and> trust_hops (Finite x) a i = (real i < x)
   \<and> trust_hops (Finite 2) a 0 \<and> trust_hops (Finite 2) a 1
   \<and> \<not> trust_hops (Finite 2) a (i + 2)"
  by (simp add: trust_hops_def)

section \<open>Properties of the request getters\<close>

lemma lc_x_forwarded_proto: "toLowerCase ''X-Forwarded-Proto'' = ''x-forwarded-proto''"
  by code_simp

lemma lc_x_forwarded_host: "toLowerCase ''X-Forwarded-Host'' = ''x-forwarded-host''"
  by code_simp

lemma lc_host: "toLowerCase ''Host'' = ''host''"
  by code_simp

lemma header_x_forwarded_proto:
  "header req (NStr ''X-Forwarded-Proto'') = Inr (headers req ''x-forwarded-proto'')"
  by (simp add: lc_x_forwarded_proto)

lemma header_x_forwarded_host:
  "header req (NStr ''X-Forwarded-Host'') = Inr (headers req ''x-forwarded-host'')"
  by (simp add: lc_x_forwarded_host)

lemma header_host: "header req (NStr ''Host'') = Inr (headers req ''host'')"
  by (simp add: lc_host)

lemma find_char_takeWhile:
  "find_char c s = (if c \<in> set s then Some (length (takeWhile (\<lambda>x. x \<noteq> c) s)) else None)"
  by (induction s) auto

lemma indexOf_0:
  "indexOf s c 0 = (if c \<in> set s then int (length (takeWhile (\<lambda>x. x \<noteq> c) s)) else - 1)"
  by (simp add: indexOf_def find_char_takeWhile)

lemma substring_0: "0 \<le> k \<Longrightarrow> substring s 0 k = take (nat k) s"
  by (simp add: substring_def clamp_index_def Let_def min_def)

lemma substring_indexOf:
  "c \<in> set s \<Longrightarrow> substring s 0 (indexOf s c 0) = takeWhile (\<lambda>x. x \<noteq> c) s"
  by (simp add: indexOf_0 substring_0 takeWhile_eq_take [symmetric])

lemma takeWhile_all: "c \<notin> set s \<Longrightarrow> takeWhile (\<lambda>x. x \<noteq> c) s = s"
  by (induction s) auto

lemma trim_http: "trim ''http'' = ''http''" "trim ''https'' = ''https''"
  by (simp_all add: trim_def trimRight_def js_ws_def)

lemma protocol_trusted_nonempty:
  assumes "h \<noteq> []"
  shows "(let index = indexOf h (CHR '','') 0
          in if index \<noteq> - 1 then trim (substring h 0 index) else trim h) = trim (first_token h)"
proof (cases "CHR '','' \<in> set h")
  case True
  then show ?thesis
    by (simp add: Let_def substring_indexOf first_token_def) (simp add: indexOf_0)
next
  case False
  then show ?thesis
    by (simp add: Let_def indexOf_0 first_token_def takeWhile_all)
qed

lemma protocol_cases:
  "protocol req =
     Inr (if \<not> trust_proxy_fn req (remoteAddress req) 0 then base_protocol req
          else case headers req ''x-forwarded-proto'' of
                 None \<Rightarrow> base_protocol req
               | Some h \<Rightarrow> if h = [] then base_protocol req else trim (first_token h))"
proof (cases "trust_proxy_fn req (remoteAddress req) 0")
  case False
  then show ?thesis by (simp add: protocol_def base_protocol_def)
next
  case True
  show ?thesis
  proof (cases "headers req ''x-forwarded-proto''")
    case None
    with True show ?thesis
      by (simp add: protocol_def base_protocol_def header_x_forwarded_proto or_else_def
          falsy_str_def indexOf_0 trim_http del: header.simps)
  next
    case (Some h)
    show ?thesis
    proof (cases "h = []")
      case True
      with Some \<open>trust_proxy_fn req (remoteAddress req) 0\<close> show ?thesis
        by (simp add: protocol_def base_protocol_def header_x_forwarded_proto or_else_def
            falsy_str_def indexOf_0 trim_http del: header.simps)
    next
      case False
      with Some \<open>trust_proxy_fn req (remoteAddress req) 0\<close>
        protocol_trusted_nonempty [OF False] show ?thesis
        by (simp add: protocol_def header_x_forwarded_proto or_else_def
            falsy_str_def Let_def del: header.simps)
    qed
  qed
qed

lemma indexOf_from:
  "indexOf s c pos =
     (if c \<in> set (drop pos s) then int (pos + length (takeWhile (\<lambda>x. x \<noteq> c) (drop pos s)))
      else - 1)"
  by (simp add: indexOf_def find_char_takeWhile)

lemma strip_port_split:
  "strip_port host =
     take (bracket_end host) host @ takeWhile (\<lambda>x. x \<noteq> CHR '':'') (drop (bracket_end host) host)"
proof -
  define off where "off = bracket_end host"
  have off: "(case host of
                c # _ \<Rightarrow> if c = CHR ''['' then indexOf host (CHR '']'') 0 + 1 else 0
              | [] \<Rightarrow> 0) = int off"
    by (auto simp: off_def bracket_end_def indexOf_0 split: list.splits)
  have sp: "strip_port host =
      (let index = indexOf host (CHR '':'') off
       in if index \<noteq> - 1 then substring host 0 index else host)"
    by (simp add: strip_port_def off Let_def)
  show ?thesis
  proof (cases "CHR '':'' \<in> set (drop off host)")
    case True
    have "take (off + length (takeWhile (\<lambda>x. x \<noteq> CHR '':'') (drop off host))) host
          = take off host @ takeWhile (\<lambda>x. x \<noteq> CHR '':'') (drop off host)"
      by (simp add: take_add takeWhile_eq_take [symmetric])
    with True show ?thesis
      by (simp add: sp indexOf_from substring_0 Let_def off_def [symmetric] del: of_nat_add)
  next
    case False
    then have "takeWhile (\<lambda>x. x \<noteq> CHR '':'') (drop off host) = drop off host"
      by (rule takeWhile_all)
    then have "take off host @ takeWhile (\<lambda>x. x \<noteq> CHR '':'') (drop off host) = host"
      by (simp only: append_take_drop_id)
    moreover from False have "strip_port host = host"
      by (simp add: sp indexOf_from Let_def)
    ultimately show ?thesis by (simp add: off_def)
  qed
qed

lemma trim_first_token_example: "trim (first_token ''https, http'') = ''https''"
  by (simp add: first_token_def trim_def trimRight_def js_ws_def)

text \<open>
  C1 (as amended).  The base value of \<open>protocol\<close> is \<open>https\<close> when the connection is
  encrypted and \<open>http\<close> otherwise.  When the trust function rejects the socket peer at hop
  0 the base value is the result, whatever \<open>X-Forwarded-Proto\<close> says.  When hop 0 is
  trusted and \<open>X-Forwarded-Proto\<close> is present and not empty, the result is its first
  comma-delimited token, trimmed; when the header is absent or empty the result is the
  base value.  The two examples of the specification follow.
\<close>

theorem protocol_getter:
  "protocol req =
     Inr (if \<not> trust_proxy_fn req (remoteAddress req) 0 then base_protocol req
          else case headers req ''x-forwarded-proto'' of
                 None \<Rightarrow> base_protocol req
               | Some h \<Rightarrow> if h = [] then base_protocol req else trim (first_token h))
   \<and> protocol (example_request False trust_none [''x-forwarded-proto'' \<mapsto> ''https''])
       = Inr ''http''
   \<and> protocol (example_request False trust_all [''x-forwarded-proto'' \<mapsto> ''https, http''])
       = Inr ''https''"
proof (intro conjI)
  show "protocol (example_request False trust_none [''x-forwarded-proto'' \<mapsto> ''https''])
       = Inr ''http''"
    by (simp add: protocol_cases example_request_def trust_none_def base_protocol_def)
  show "protocol (example_request False trust_all [''x-forwarded-proto'' \<mapsto> ''https, http''])
       = Inr ''https''"
    by (simp add: protocol_cases example_request_def trust_all_def trim_first_token_example)
qed (rule protocol_cases)

text \<open>
  C1 as stated fails for a header that is present and empty: the peer is trusted, the
  header is there, and the result is the base value \<open>http\<close>, not the (empty) first token.
\<close>

theorem protocol_empty_header_counterexample:
  "trust_proxy_fn (example_request False trust_all [''x-forwarded-proto'' \<mapsto> ''''])
     (remoteAddress (example_request False trust_all [''x-forwarded-proto'' \<mapsto> ''''])) 0
   \<and> headers (example_request False trust_all [''x-forwarded-proto'' \<mapsto> ''''])
        ''x-forwarded-proto'' = Some ''''
   \<and> protocol (example_request False trust_all [''x-forwarded-proto'' \<mapsto> '''']) = Inr ''http''
   \<and> trim (first_token '''') = ''''"
  by (simp add: protocol_cases example_request_def trust_all_def base_protocol_def
      first_token_def trim_def trimRight_def)

lemma substring_takeWhile:
  "substring s 0 (int (length (takeWhile P s))) = takeWhile P s"
  by (simp add: substring_0 takeWhile_eq_take [symmetric])

lemma chosen_host_cases:
  "chosen_host req =
     Inr (case headers req ''x-forwarded-host'' of
            None \<Rightarrow> headers req ''host''
          | Some h \<Rightarrow>
              if h = [] \<or> \<not> trust_proxy_fn req (remoteAddress req) 0 then headers req ''host''
              else if CHR '','' \<in> set h then Some (trimRight (first_token h)) else Some h)"
  by (simp add: chosen_host_def header_x_forwarded_host header_host indexOf_0 substring_takeWhile
      first_token_def Let_def del: header.simps split: option.splits)

lemma hostname_cases:
  "hostname req =
     Inr (case (case headers req ''x-forwarded-host'' of
            None \<Rightarrow> headers req ''host''
          | Some h \<Rightarrow>
              if h = [] \<or> \<not> trust_proxy_fn req (remoteAddress req) 0 then headers req ''host''
              else if CHR '','' \<in> set h then Some (trimRight (first_token h)) else Some h) of
            None \<Rightarrow> None
          | Some host \<Rightarrow> if host = [] then None else Some (strip_port host))"
  by (simp add: hostname_def chosen_host_cases falsy_str_def split: option.splits)

lemma strip_port_examples:
  "strip_port ''example.com:8080'' = ''example.com''"
  "strip_port ''[::1]:8080'' = ''[::1]''"
  by (simp_all add: strip_port_def indexOf_def substring_def clamp_index_def)

text \<open>
  C2 (as amended).  \<open>hostname\<close> takes the \<open>Host\<close> header when \<open>X-Forwarded-Host\<close> is absent
  or empty or hop 0 is not trusted; otherwise it takes \<open>X-Forwarded-Host\<close>: the text before
  its first comma, right-trimmed, when it has a comma, and the header as it is when it has
  none.  An absent or empty host gives no hostname.  From the chosen host the text from the
  first colon on is cut off, the search starting after the closing bracket of a leading
  bracketed literal (\<open>bracket_end\<close>), so that the colons inside the brackets stay.
\<close>

theorem hostname_getter:
  "hostname req =
     Inr (case (case headers req ''x-forwarded-host'' of
            None \<Rightarrow> headers req ''host''
          | Some h \<Rightarrow>
              if h = [] \<or> \<not> trust_proxy_fn req (remoteAddress req) 0 then headers req ''host''
              else if CHR '','' \<in> set h then Some (trimRight (first_token h)) else Some h) of
            None \<Rightarrow> None
          | Some host \<Rightarrow> if host = [] then None else Some (strip_port host))
   \<and> strip_port host =
       take (bracket_end host) host @ takeWhile (\<lambda>x. x \<noteq> CHR '':'') (drop (bracket_end host) host)
   \<and> hostname (example_request False trust_none [''host'' \<mapsto> ''example.com:8080''])
       = Inr (Some ''example.com'')
   \<and> hostname (example_request False trust_none [''host'' \<mapsto> ''[::1]:8080''])
       = Inr (Some ''[::1]'')
   \<and> hostname (example_request False trust_none [''host'' \<mapsto> []]) = Inr None
   \<and> hostname (example_request False trust_none Map.empty) = Inr None"
proof (intro conjI)
  show "strip_port host =
       take (bracket_end host) host @ takeWhile (\<lambda>x. x \<noteq> CHR '':'') (drop (bracket_end host) host)"
    by (rule strip_port_split)
qed (simp_all add: hostname_cases example_request_def strip_port_examples)

text \<open>
  C2 as stated fails twice.  With a trusted peer and an empty \<open>X-Forwarded-Host\<close> the
  getter answers from the \<open>Host\<close> header, where the claim takes the (empty) first token
  of the forwarded header.  With a trusted peer and a forwarded host that has no comma and
  ends in a no-break space, the space stays, where the claim has the token right-trimmed.
\<close>

theorem hostname_forwarded_counterexample:
  "hostname (example_request False trust_all
       [''x-forwarded-host'' \<mapsto> [], ''host'' \<mapsto> ''example.com''])
     = Inr (Some ''example.com'')
   \<and> trimRight (first_token []) = []
   \<and> hostname (example_request False trust_all
       [''x-forwarded-host'' \<mapsto> ''example.com'' @ [CHR 0xA0]])
     = Inr (Some (''example.com'' @ [CHR 0xA0]))
   \<and> trimRight (first_token (''example.com'' @ [CHR 0xA0])) = ''example.com''"
  by (simp add: hostname_cases example_request_def trust_all_def first_token_def trimRight_def
      js_ws_def strip_port_def indexOf_def substring_def clamp_index_def)

lemma slice_nonneg: "0 \<le> k \<Longrightarrow> slice xs k = drop (nat k) xs"
  by (simp add: slice_def)

lemma split_on_example:
  "split_on (CHR ''.'') ''tobi.ferrets.example.com'' = [''tobi'', ''ferrets'', ''example'', ''com'']"
  by simp

text \<open>
  What holds of \<open>subdomains\<close>.  For an offset that is not negative it splits the hostname
  at the dots, reverses the segments and drops the first \<open>subdomain offset\<close> of them; a
  hostname that \<open>isIP\<close> recognises is a list of one element and is not split; no hostname
  gives the empty list.  So \<open>tobi.ferrets.example.com\<close> gives \<open>[ferrets, tobi]\<close> at offset 2
  and \<open>[tobi]\<close> at offset 3, and a hostname that \<open>isIP\<close> recognises gives the empty list at
  every offset from 1 on.
\<close>

lemma subdomains_cases:
  "(hostname req = Inr hn \<and> 0 \<le> subdomain_offset req \<longrightarrow>
      subdomains isIP req =
        Inr (case hn of
               None \<Rightarrow> []
             | Some h \<Rightarrow>
                 if h = [] then []
                 else drop (nat (subdomain_offset req))
                        (if isIP h = 0 then rev (split_on (CHR ''.'') h) else [h])))
   \<and> (hostname req = Inr (Some ''tobi.ferrets.example.com'')
        \<and> isIP ''tobi.ferrets.example.com'' = 0 \<and> subdomain_offset req = 2 \<longrightarrow>
      subdomains isIP req = Inr [''ferrets'', ''tobi''])
   \<and> (hostname req = Inr (Some ''tobi.ferrets.example.com'')
        \<and> isIP ''tobi.ferrets.example.com'' = 0 \<and> subdomain_offset req = 3 \<longrightarrow>
      subdomains isIP req = Inr [''tobi''])
   \<and> (hostname req = Inr (Some h) \<and> isIP h \<noteq> 0 \<and> 1 \<le> subdomain_offset req \<longrightarrow>
      subdomains isIP req = Inr [])
   \<and> (hostname req = Inr None \<longrightarrow> subdomains isIP req = Inr [])"
  by (auto simp: subdomains_def slice_nonneg split_on_example Let_def split: option.splits)

text \<open>Instances, on requests with a \<open>Host\<close> header and on one without.\<close>

lemma subdomains_examples:
  "subdomains example_isIP
     (example_request False trust_none [''host'' \<mapsto> ''tobi.ferrets.example.com''])
     = Inr [''ferrets'', ''tobi'']
   \<and> subdomains example_isIP
     ((example_request False trust_none [''host'' \<mapsto> ''tobi.ferrets.example.com''])
       \<lparr>subdomain_offset := 3\<rparr>)
     = Inr [''tobi'']
   \<and> subdomains example_isIP (example_request False trust_none [''host'' \<mapsto> ''127.0.0.1''])
     = Inr []
   \<and> subdomains example_isIP (example_request False trust_none Map.empty) = Inr []"
proof -
  let ?r = "example_request False trust_none [''host'' \<mapsto> ''tobi.ferrets.example.com'']"
  let ?i = "example_request False trust_none [''host'' \<mapsto> ''127.0.0.1'']"
  let ?e = "example_request False trust_none Map.empty"
  have strip: "strip_port ''tobi.ferrets.example.com'' = ''tobi.ferrets.example.com''"
    "strip_port ''127.0.0.1'' = ''127.0.0.1''"
    by (simp_all add: strip_port_def indexOf_def)
  have h2: "hostname ?r = Inr (Some ''tobi.ferrets.example.com'')"
    by (simp add: hostname_cases example_request_def strip)
  have h3: "hostname (?r\<lparr>subdomain_offset := 3\<rparr>) = Inr (Some ''tobi.ferrets.example.com'')"
    by (simp add: hostname_cases example_request_def strip)
  have hi: "hostname ?i = Inr (Some ''127.0.0.1'')"
    by (simp add: hostname_cases example_request_def strip)
  have he: "hostname ?e = Inr None"
    by (simp add: hostname_cases example_request_def)
  have ip: "example_isIP ''tobi.ferrets.example.com'' = 0" "example_isIP ''127.0.0.1'' \<noteq> 0"
    by (simp_all add: example_isIP_def)
  have o: "subdomain_offset ?r = 2" "subdomain_offset (?r\<lparr>subdomain_offset := 3\<rparr>) = 3"
    "1 \<le> subdomain_offset ?i"
    by (simp_all add: example_request_def)
  show ?thesis
    using subdomains_cases [of ?r "Some ''tobi.ferrets.example.com''" example_isIP "''127.0.0.1''"]
      subdomains_cases [of "?r\<lparr>subdomain_offset := 3\<rparr>" "Some ''tobi.ferrets.example.com''"
        example_isIP "''127.0.0.1''"]
      subdomains_cases [of ?i "Some ''127.0.0.1''" example_isIP "''127.0.0.1''"]
      subdomains_cases [of ?e None example_isIP "''127.0.0.1''"]
      h2 h3 hi he ip o
    by simp
qed

text \<open>
  C7, at the input where the code departs from it.  The \<open>hostname\<close> getter keeps the
  brackets of an IPv6 literal, and \<open>isIP\<close> answers 0 on a bracketed string.  For the request
  \<open>Host: [::ffff:127.0.0.1]:8080\<close> under the default offset 2 the hostname is the literal
  \<open>[::ffff:127.0.0.1]\<close>, it is split at its dots, and \<open>subdomains\<close> is \<open>[0, [::ffff:127]\<close>,
  not the empty list that the claim, and the comment in the getter, give for an IP
  address.
\<close>

theorem subdomains_bracketed_literal:
  "isIP ''[::ffff:127.0.0.1]'' = 0 \<and> headers req ''x-forwarded-host'' = None
   \<and> headers req ''host'' = Some ''[::ffff:127.0.0.1]:8080'' \<and> subdomain_offset req = 2 \<longrightarrow>
   hostname req = Inr (Some ''[::ffff:127.0.0.1]'')
   \<and> subdomains isIP req = Inr [''0'', ''[::ffff:127'']"
proof
  assume a: "isIP ''[::ffff:127.0.0.1]'' = 0 \<and> headers req ''x-forwarded-host'' = None
   \<and> headers req ''host'' = Some ''[::ffff:127.0.0.1]:8080'' \<and> subdomain_offset req = 2"
  have strip: "strip_port ''[::ffff:127.0.0.1]:8080'' = ''[::ffff:127.0.0.1]''"
    by (simp add: strip_port_def indexOf_def substring_def clamp_index_def)
  from a have h: "hostname req = Inr (Some ''[::ffff:127.0.0.1]'')"
    by (simp add: hostname_cases strip)
  have split: "split_on (CHR ''.'') ''[::ffff:127.0.0.1]'' = [''[::ffff:127'', ''0'', ''0'', ''1]'']"
    by simp
  from a h have "subdomains isIP req = Inr [''0'', ''[::ffff:127'']"
    by (simp add: subdomains_def slice_nonneg split Let_def)
  with h show "hostname req = Inr (Some ''[::ffff:127.0.0.1]'')
   \<and> subdomains isIP req = Inr [''0'', ''[::ffff:127'']" by simp
qed

text \<open>
  The instance of C7 at the failing input: the example \<open>isIP\<close> knows the address without
  its brackets and answers 0 with them.
\<close>

theorem subdomains_bracketed_literal_witness:
  "example_isIP ''::ffff:127.0.0.1'' = 6 \<and> example_isIP ''[::ffff:127.0.0.1]'' = 0
   \<and> hostname (example_request False trust_none [''host'' \<mapsto> ''[::ffff:127.0.0.1]:8080''])
       = Inr (Some ''[::ffff:127.0.0.1]'')
   \<and> subdomains example_isIP
         (example_request False trust_none [''host'' \<mapsto> ''[::ffff:127.0.0.1]:8080''])
       = Inr [''0'', ''[::ffff:127'']"
  using subdomains_bracketed_literal [of example_isIP
      "example_request False trust_none [''host'' \<mapsto> ''[::ffff:127.0.0.1]:8080'']"]
  by (simp add: example_isIP_def example_request_def)

text \<open>
  C8.  \<open>fresh\<close> is false when the method is neither \<open>GET\<close> nor \<open>HEAD\<close>, and false when the
  status of the response is outside 200 to 299 and is not 304.  When both tests pass it is
  the answer of the evaluator; when one of them fails the result is the same for every
  evaluator, which is therefore not consulted.  \<open>stale\<close> is the negation of \<open>fresh\<close>.
\<close>

theorem fresh_getter:
  "(req_method req \<noteq> ''GET'' \<and> req_method req \<noteq> ''HEAD'' \<longrightarrow> fresh ev req = False)
   \<and> (\<not> (200 \<le> res_statusCode req \<and> res_statusCode req < 300) \<and> res_statusCode req \<noteq> 304
        \<longrightarrow> fresh ev req = False)
   \<and> ((req_method req = ''GET'' \<or> req_method req = ''HEAD'')
        \<and> ((200 \<le> res_statusCode req \<and> res_statusCode req < 300) \<or> res_statusCode req = 304)
        \<longrightarrow> fresh ev req = ev (headers req) (res_get req ''ETag'') (res_get req ''Last-Modified''))
   \<and> (\<not> ((req_method req = ''GET'' \<or> req_method req = ''HEAD'')
          \<and> ((200 \<le> res_statusCode req \<and> res_statusCode req < 300) \<or> res_statusCode req = 304))
        \<longrightarrow> fresh ev req = fresh ev' req)
   \<and> stale ev req = (\<not> fresh ev req)"
  by (auto simp: fresh_def stale_def Let_def)

text \<open>The instances of C8: a \<open>POST\<close>, a status 404, and the statuses 200 and 304.\<close>

theorem fresh_getter_witness:
  "fresh always_fresh ((example_request False trust_none Map.empty)\<lparr>req_method := ''POST''\<rparr>) = False
   \<and> fresh always_fresh ((example_request False trust_none Map.empty)\<lparr>res_statusCode := 404\<rparr>) = False
   \<and> fresh always_fresh (example_request False trust_none Map.empty) = True
   \<and> fresh always_fresh ((example_request False trust_none Map.empty)\<lparr>res_statusCode := 304\<rparr>) = True
   \<and> fresh always_fresh ((example_request False trust_none Map.empty)\<lparr>req_method := ''POST''\<rparr>)
       = fresh never_fresh ((example_request False trust_none Map.empty)\<lparr>req_method := ''POST''\<rparr>)
   \<and> stale always_fresh (example_request False trust_none Map.empty) = False"
  using fresh_getter [of "(example_request False trust_none Map.empty)\<lparr>req_method := ''POST''\<rparr>"
      always_fresh never_fresh]
    fresh_getter [of "(example_request False trust_none Map.empty)\<lparr>res_statusCode := 404\<rparr>"
      always_fresh never_fresh]
    fresh_getter [of "example_request False trust_none Map.empty" always_fresh never_fresh]
    fresh_getter [of "(example_request False trust_none Map.empty)\<lparr>res_statusCode := 304\<rparr>"
      always_fresh never_fresh]
  by (auto simp add: example_request_def always_fresh_def)

text \<open>
  C10.  \<open>req.get\<close> throws a \<open>TypeError\<close> when its argument is falsy (absent, or the empty
  string among others) and when it is not a string.  For every string that is not empty it
  returns without throwing: the name is lowercased and the header object is read at the
  lowercased name (\<open>referer\<close> and \<open>referrer\<close> read \<open>referrer\<close> first, then \<open>referer\<close>), so that
  two names that differ only in case give the same result.
\<close>

theorem header_getter:
  "(falsy_arg name \<longrightarrow>
      header req name = Inl (TypeError ''name argument is required to req.get''))
   \<and> (\<not> falsy_arg name \<and> (\<forall>s. name \<noteq> NStr s) \<longrightarrow>
      header req name = Inl (TypeError ''name must be a string to req.get''))
   \<and> (s \<noteq> [] \<longrightarrow>
      header req (NStr s) =
        Inr (if toLowerCase s = ''referer'' \<or> toLowerCase s = ''referrer''
             then or_else (headers req ''referrer'') (headers req ''referer'')
             else headers req (toLowerCase s)))
   \<and> (s \<noteq> [] \<and> t \<noteq> [] \<and> toLowerCase s = toLowerCase t \<longrightarrow>
      header req (NStr s) = header req (NStr t))"
  by (cases name) (auto simp: Let_def)

lemma lc_content_type: "toLowerCase ''Content-Type'' = ''content-type''"
  by code_simp

lemma lc_content_type_lower: "toLowerCase ''content-type'' = ''content-type''"
  by code_simp

text \<open>The instances of C10: no argument, the empty string, a number, and a header name in two spellings.\<close>

theorem header_getter_witness:
  "header (example_request False trust_none [''content-type'' \<mapsto> ''text/plain'']) NUndefined
     = Inl (TypeError ''name argument is required to req.get'')
   \<and> header (example_request False trust_none [''content-type'' \<mapsto> ''text/plain'']) (NStr [])
     = Inl (TypeError ''name argument is required to req.get'')
   \<and> header (example_request False trust_none [''content-type'' \<mapsto> ''text/plain'']) (NNum (Finite 7))
     = Inl (TypeError ''name must be a string to req.get'')
   \<and> header (example_request False trust_none [''content-type'' \<mapsto> ''text/plain''])
       (NStr ''Content-Type'') = Inr (Some ''text/plain'')
   \<and> header (example_request False trust_none [''content-type'' \<mapsto> ''text/plain''])
       (NStr ''Content-Type'')
     = header (example_request False trust_none [''content-type'' \<mapsto> ''text/plain''])
       (NStr ''content-type'')"
  using header_getter [of NUndefined
      "example_request False trust_none [''content-type'' \<mapsto> ''text/plain'']"
      "''Content-Type''" "''content-type''"]
    header_getter [of "NStr []"
      "example_request False trust_none [''content-type'' \<mapsto> ''text/plain'']"
      "''Content-Type''" "''content-type''"]
    header_getter [of "NNum (Finite 7)"
      "example_request False trust_none [''content-type'' \<mapsto> ''text/plain'']"
      "''Content-Type''" "''content-type''"]
  by (simp add: lc_content_type lc_content_type_lower example_request_def del: header.simps)

section \<open>Properties of rendering\<close>

text \<open>
  C9.  When the engine of a view throws during \<open>render\<close>, \<open>tryRender\<close> catches the exception
  and calls the same callback with it as the error argument, in the world the engine left;
  the result of \<open>tryRender\<close> is the result of that call.  It holds for whatever \<open>view.render\<close>
  is.  When the engine returns, so does \<open>tryRender\<close>.  Nothing that the engine throws leaves
  \<open>tryRender\<close> by itself: an exception that reaches the caller was thrown by the callback
  when it was handed the engine's exception.
\<close>

theorem tryRender_catches:
  "(view_engine v (view_path v) options callback w = (Inl err, w') \<longrightarrow>
      tryRender (AView v) options callback w = callback (CbError err) w')
   \<and> (view_render view options callback w = (Inl err, w') \<longrightarrow>
      tryRender view options callback w = callback (CbError err) w')
   \<and> (view_render view options callback w = (Inr u, w') \<longrightarrow>
      tryRender view options callback w = (Inr u, w'))
   \<and> (tryRender view options callback w = (Inl x, w2) \<longrightarrow>
      (\<exists>e w1. view_render view options callback w = (Inl e, w1)
         \<and> callback (CbError e) w1 = (Inl x, w2)))"
  by (auto simp: tryRender_def split: prod.splits sum.splits)

text \<open>The instance of C9: the engine throws, the callback receives the exception, \<open>tryRender\<close> returns.\<close>

theorem tryRender_catches_witness:
  "tryRender (AView (example_view throwing_engine ''index.html'' True)) Map.empty log_callback []
     = (Inr (), [CbError (Error ''engine failed'')])"
  using tryRender_catches [of "example_view throwing_engine ''index.html'' True" Map.empty
      log_callback "[]" "Error ''engine failed''" "[]"]
  by (simp add: example_view_def throwing_engine_def log_callback_def)




















section \<open>Properties of the settings\<close>

lemma on_chain_off_lookup_aux:
  assumes "on_chain h0 r0 t0 = Some b0"
  shows "\<not> b0 \<longrightarrow> (\<forall>h'. (\<forall>x. x \<noteq> t0 \<longrightarrow> h' x = h0 x)
            \<longrightarrow> chain_lookup sel h' r0 = chain_lookup sel h0 r0)"
proof (rule on_chain.raw_induct [OF _ assms])
  fix on_chain' h r t b
  assume 1: "\<And>h r t y. on_chain' h r t = Some y \<Longrightarrow>
      \<not> y \<longrightarrow> (\<forall>h'. (\<forall>x. x \<noteq> t \<longrightarrow> h' x = h x)
            \<longrightarrow> chain_lookup sel h' r = chain_lookup sel h r)"
    "(if r = t then Some True
      else case proto (h r) of None \<Rightarrow> Some False | Some p \<Rightarrow> on_chain' h p t) = Some b"
  show "\<not> b \<longrightarrow> (\<forall>h'. (\<forall>x. x \<noteq> t \<longrightarrow> h' x = h x)
            \<longrightarrow> chain_lookup sel h' r = chain_lookup sel h r)"
  proof (intro impI allI)
    fix h' :: heap
    assume nb: "\<not> b" and off: "\<forall>x. x \<noteq> t \<longrightarrow> h' x = h x"
    from 1(2) nb have rt: "r \<noteq> t" by (auto split: if_splits)
    with off have same: "h' r = h r" by simp
    show "chain_lookup sel h' r = chain_lookup sel h r"
    proof (cases "proto (h r)")
      case None
      with same show ?thesis
        by (simp add: chain_lookup.simps [of sel h' r] chain_lookup.simps [of sel h r]
            split: option.splits)
    next
      case (Some p)
      with 1(2) nb rt have "on_chain' h p t = Some False" by simp
      then have "chain_lookup sel h' p = chain_lookup sel h p"
        using 1(1) off by blast
      with same Some show ?thesis
        by (simp add: chain_lookup.simps [of sel h' r] chain_lookup.simps [of sel h r]
            split: option.splits)
    qed
  qed
qed

lemma on_chain_off_lookup:
  "on_chain h r t = Some False \<Longrightarrow> (\<forall>x. x \<noteq> t \<longrightarrow> h' x = h x) \<Longrightarrow>
   chain_lookup sel h' r = chain_lookup sel h r"
  using on_chain_off_lookup_aux by blast

lemma on_chain_finite_aux:
  assumes "on_chain h0 r0 t0 = Some b0"
  shows "\<not> b0 \<longrightarrow> (\<forall>h'. (\<forall>x. x \<noteq> t0 \<longrightarrow> proto (h' x) = proto (h0 x))
            \<longrightarrow> finite_chain h' r0)"
proof (rule on_chain.raw_induct [OF _ assms])
  fix on_chain' h r t b
  assume 1: "\<And>h r t y. on_chain' h r t = Some y \<Longrightarrow>
      \<not> y \<longrightarrow> (\<forall>h'. (\<forall>x. x \<noteq> t \<longrightarrow> proto (h' x) = proto (h x))
            \<longrightarrow> finite_chain h' r)"
    "(if r = t then Some True
      else case proto (h r) of None \<Rightarrow> Some False | Some p \<Rightarrow> on_chain' h p t) = Some b"
  show "\<not> b \<longrightarrow> (\<forall>h'. (\<forall>x. x \<noteq> t \<longrightarrow> proto (h' x) = proto (h x))
            \<longrightarrow> finite_chain h' r)"
  proof (intro impI allI)
    fix h' :: heap
    assume nb: "\<not> b" and off: "\<forall>x. x \<noteq> t \<longrightarrow> proto (h' x) = proto (h x)"
    from 1(2) nb have rt: "r \<noteq> t" by (auto split: if_splits)
    with off have same: "proto (h' r) = proto (h r)" by simp
    show "finite_chain h' r"
    proof (cases "proto (h r)")
      case None
      with same show ?thesis by (simp add: chain_end)
    next
      case (Some p)
      with 1(2) nb rt have "on_chain' h p t = Some False" by simp
      then have "finite_chain h' p"
        using 1(1) off by blast
      with same Some show ?thesis by (simp add: chain_step)
    qed
  qed
qed

lemma on_chain_finite:
  "on_chain h r t = Some False \<Longrightarrow> (\<forall>x. x \<noteq> t \<longrightarrow> proto (h' x) = proto (h x)) \<Longrightarrow>
   finite_chain h' r"
  using on_chain_finite_aux by blast

lemma finite_chain_on_chain: "finite_chain h r \<Longrightarrow> \<exists>b. on_chain h r t = Some b"
proof (induction rule: finite_chain.induct)
  case (chain_end h r)
  then show ?case by (auto simp: on_chain.simps [of h r t])
next
  case (chain_step h r p)
  then show ?case by (auto simp: on_chain.simps [of h r t])
qed

lemma finite_chain_lookup: "finite_chain h r \<Longrightarrow> \<exists>v. chain_lookup sel h r = Some v"
proof (induction rule: finite_chain.induct)
  case (chain_end h r)
  then show ?case by (simp add: chain_lookup.simps [of sel h r] split: option.splits)
next
  case (chain_step h r p)
  then show ?case by (simp add: chain_lookup.simps [of sel h r] split: option.splits)
qed

lemma finite_chain_same_protos:
  "finite_chain h r \<Longrightarrow> (\<forall>x. proto (h' x) = proto (h x)) \<Longrightarrow> finite_chain h' r"
proof (induction rule: finite_chain.induct)
  case (chain_end h r)
  then show ?case by (simp add: finite_chain.chain_end)
next
  case (chain_step h r p)
  then have "proto (h' r) = Some p" "finite_chain h' p" by simp_all
  then show ?case by (rule finite_chain.chain_step)
qed

lemma delete_trust_proxy_proto: "proto (delete_trust_proxy h a x) = proto (h x)"
  by (simp add: delete_trust_proxy_def)

lemma onmount_returns:
  assumes "finite_chain h this" "finite_chain h parent"
  shows "\<exists>res h'. onmount h this parent = Some (res, h')"
proof -
  obtain m where m: "chain_lookup default_marker h this = Some m"
    using finite_chain_lookup [OF assms(1)] by blast
  obtain fn where fn: "app_get h parent ''trust proxy fn'' = Some fn"
    using finite_chain_lookup [OF assms(2)] unfolding app_get_def by blast
  define h1 where "h1 = (if m = Some True \<and> is_function fn then delete_trust_proxy h this else h)"
  have "\<forall>x. proto (h1 x) = proto (h x)"
    by (simp add: h1_def delete_trust_proxy_proto)
  with assms(2) have "finite_chain h1 parent" by (rule finite_chain_same_protos)
  then obtain b where b: "on_chain h1 parent this = Some b"
    using finite_chain_on_chain by blast
  show ?thesis
  proof (cases "m = Some True")
    case True
    with m fn b show ?thesis
      by (cases b) (simp_all add: onmount_def h1_def Let_def)
  next
    case False
    with m b show ?thesis
      by (cases b) (simp_all add: onmount_def h1_def Let_def)
  qed
qed

lemma finite_chain_redirect:
  "finite_chain h r \<Longrightarrow> (\<forall>x. x \<noteq> t \<longrightarrow> proto (h' x) = proto (h x)) \<Longrightarrow>
   finite_chain h' t \<Longrightarrow> finite_chain h' r"
proof (induction rule: finite_chain.induct)
  case (chain_end h r)
  show ?case
  proof (cases "r = t")
    case True
    with chain_end show ?thesis by simp
  next
    case False
    with chain_end have "proto (h' r) = None" by simp
    then show ?thesis by (rule finite_chain.chain_end)
  qed
next
  case (chain_step h r p)
  show ?case
  proof (cases "r = t")
    case True
    with chain_step show ?thesis by simp
  next
    case False
    with chain_step have "proto (h' r) = Some p" "finite_chain h' p" by simp_all
    then show ?thesis by (rule finite_chain.chain_step)
  qed
qed

lemma onmount_keeps_chains_finite:
  assumes m: "onmount h this parent = Some (Inr (), h')"
    and fin: "\<forall>r. finite_chain h r"
  shows "finite_chain h' r"
proof -
  obtain h1 where p1: "\<forall>x. proto (h1 x) = proto (h x)"
    and oc: "on_chain h1 parent this = Some False"
    and h': "h' = h1(this := (h1 this)\<lparr>proto := Some parent\<rparr>)"
  proof -
    obtain mk where mk: "chain_lookup default_marker h this = Some mk"
      using m by (auto simp: onmount_def split: option.splits)
    obtain fn where fn:
      "(if mk = Some True then app_get h parent ''trust proxy fn'' else Some None) = Some fn"
      using m mk by (auto simp: onmount_def split: option.splits)
    define h1 where "h1 = (if mk = Some True \<and> is_function fn then delete_trust_proxy h this else h)"
    have "\<forall>x. proto (h1 x) = proto (h x)"
      by (simp add: h1_def delete_trust_proxy_proto)
    moreover from m mk fn have "on_chain h1 parent this = Some False
        \<and> h' = h1(this := (h1 this)\<lparr>proto := Some parent\<rparr>)"
      by (auto simp: onmount_def h1_def Let_def split: option.splits bool.splits)
    ultimately show ?thesis using that by blast
  qed
  have off: "\<forall>x. x \<noteq> this \<longrightarrow> proto (h' x) = proto (h1 x)"
    by (simp add: h')
  have par: "finite_chain h' parent"
    using oc off by (rule on_chain_finite)
  have tf: "finite_chain h' this"
    by (rule chain_step [of h' this parent]) (simp_all add: h' par [unfolded h'])
  have "finite_chain h r" using fin by simp
  moreover have "\<forall>x. x \<noteq> this \<longrightarrow> proto (h' x) = proto (h x)"
    using off p1 by simp
  ultimately show ?thesis using tf by (rule finite_chain_redirect)
qed

lemma onmount_inherits:
  assumes m: "onmount h this parent = Some (Inr (), h')"
    and d: "chain_lookup default_marker h this = Some (Some True)"
    and f: "app_get h parent ''trust proxy fn'' = Some fn" "is_function fn"
  shows "own (h' this) ''trust proxy'' = None \<and> own (h' this) ''trust proxy fn'' = None
         \<and> proto (h' this) = Some parent
         \<and> app_get h' this ''trust proxy fn'' = Some fn
         \<and> app_get h' parent ''trust proxy fn'' = Some fn"
proof -
  define h1 where "h1 = delete_trust_proxy h this"
  from m d f have oc: "on_chain h1 parent this = Some False"
    and h': "h' = h1(this := (h1 this)\<lparr>proto := Some parent\<rparr>)"
    by (auto simp: onmount_def h1_def Let_def split: option.splits bool.splits)
  have off1: "\<forall>x. x \<noteq> this \<longrightarrow> h x = h1 x"
    by (simp add: h1_def delete_trust_proxy_def)
  have off2: "\<forall>x. x \<noteq> this \<longrightarrow> h' x = h1 x"
    by (simp add: h')
  let ?sel = "\<lambda>obj. own obj ''trust proxy fn''"
  have "chain_lookup ?sel h parent = chain_lookup ?sel h1 parent"
    using oc off1 by (rule on_chain_off_lookup)
  moreover have "chain_lookup ?sel h' parent = chain_lookup ?sel h1 parent"
    using oc off2 by (rule on_chain_off_lookup)
  ultimately have p: "app_get h' parent ''trust proxy fn'' = Some fn"
    using f(1) by (simp add: app_get_def)
  have own1: "own (h' this) ''trust proxy'' = None" "own (h' this) ''trust proxy fn'' = None"
    and pr: "proto (h' this) = Some parent"
    by (simp_all add: h' h1_def delete_trust_proxy_def)
  have "app_get h' this ''trust proxy fn'' = app_get h' parent ''trust proxy fn''"
    unfolding app_get_def
    by (subst chain_lookup.simps) (simp add: own1 pr)
  with p own1 pr show ?thesis by simp
qed

lemma onmount_frame:
  assumes "onmount h this parent = Some (res, h')"
  shows "default_marker (h' a) = default_marker (h a)"
    and "a \<noteq> this \<Longrightarrow> h' a = h a"
    and "default_marker (h this) = Some False \<Longrightarrow> own (h' this) = own (h this)"
proof -
  obtain m where m: "chain_lookup default_marker h this = Some m"
    using assms by (auto simp: onmount_def split: option.splits)
  have own: "default_marker (h this) = Some False \<Longrightarrow> m = Some False"
    using m by (simp add: chain_lookup.simps [of default_marker h this])
  define fn where "fn = (if m = Some True then app_get h parent ''trust proxy fn'' else Some None)"
  define h1 where "h1 = (if m = Some True \<and> is_function (the fn)
                         then delete_trust_proxy h this else h)"
  from assms m have h': "h' = h1 \<or> h' = h1(this := (h1 this)\<lparr>proto := Some parent\<rparr>)"
    by (auto simp: onmount_def h1_def fn_def Let_def split: option.splits bool.splits if_splits)
  then show "default_marker (h' a) = default_marker (h a)"
    by (auto simp: h1_def delete_trust_proxy_def)
  from h' show "a \<noteq> this \<Longrightarrow> h' a = h a"
    by (auto simp: h1_def delete_trust_proxy_def)
  assume "default_marker (h this) = Some False"
  then have "h1 = h" using own by (simp add: h1_def)
  with h' show "own (h' this) = own (h this)" by auto
qed

lemma app_set_trust_proxy:
  assumes "app_set pc h a ''trust proxy'' v = (Inr (), h')"
  shows "default_marker (h' a) = Some False \<and> own (h' a) ''trust proxy'' = Some (Raw v)
         \<and> (\<exists>f. compileTrust pc v = Inr f \<and> own (h' a) ''trust proxy fn'' = Some (Compiled (TrustFn f)))
         \<and> chain_lookup default_marker h' a = Some (Some False)"
proof -
  from assms obtain f where f: "compileTrust pc v = Inr f"
    and h': "h' = define_marker (assign (assign h a ''trust proxy'' (Raw v)) a ''trust proxy fn''
                     (Compiled (TrustFn f))) a False"
    by (auto simp: app_set_def trustProxyDefaultSymbol_def Let_def split: sum.splits)
  have "default_marker (h' a) = Some False"
    by (simp add: h' define_marker_def)
  moreover from this have "chain_lookup default_marker h' a = Some (Some False)"
    by (simp add: chain_lookup.simps [of default_marker h' a])
  moreover have "own (h' a) ''trust proxy'' = Some (Raw v)"
    "own (h' a) ''trust proxy fn'' = Some (Compiled (TrustFn f))"
    by (simp_all add: h' define_marker_def assign_def)
  ultimately show ?thesis using f by simp
qed

lemma app_set_keeps_explicit:
  "default_marker (h a) = Some False \<Longrightarrow> default_marker (snd (app_set pc h b k v) a) = Some False"
  by (auto simp: app_set_def define_marker_def assign_def Let_def split: sum.splits)

lemma app_set_returns_iff:
  "(\<exists>h1. app_set pc h a ''trust proxy'' v = (Inr (), h1)) = (\<exists>f. compileTrust pc v = Inr f)"
  by (auto simp: app_set_def trustProxyDefaultSymbol_def Let_def split: sum.splits)

lemma app_set_throws:
  "compileTrust pc v = Inl e \<Longrightarrow>
   app_set pc h a ''trust proxy'' v = (Inl e, assign h a ''trust proxy'' (Raw v))"
  by (simp add: app_set_def trustProxyDefaultSymbol_def Let_def)

lemma assign_marker: "default_marker (assign h a k x b) = default_marker (h b)"
  by (simp add: assign_def)

lemma later_keeps_explicit:
  "later pc h hl \<Longrightarrow> default_marker (h a) = Some False \<Longrightarrow> default_marker (hl a) = Some False"
proof (induction rule: later.induct)
  case (later_now h)
  then show ?case by simp
next
  case (later_set h h1 b k v)
  then have "default_marker (h1 a) = Some False" by simp
  then show ?case by (rule app_set_keeps_explicit)
next
  case (later_mount h h1 t p r h2)
  then have "default_marker (h1 a) = Some False" by simp
  with onmount_frame(1) [OF later_mount(2), of a] show ?case by simp
qed

lemma explicit_kept_ever:
  assumes s: "app_set pc h a ''trust proxy'' v = (Inr (), h1)"
    and l: "later pc h1 hl"
    and m: "onmount hl a parent = Some (res, hm)"
  shows "default_marker (hl a) = Some False" "own (hm a) = own (hl a)"
    "default_marker (hm a) = Some False"
proof -
  from app_set_trust_proxy [OF s] have "default_marker (h1 a) = Some False" by simp
  with l show e: "default_marker (hl a) = Some False" by (rule later_keeps_explicit)
  with m show "own (hm a) = own (hl a)" by (rule onmount_frame(3))
  from onmount_frame(1) [OF m, of a] e show "default_marker (hm a) = Some False" by simp
qed

text \<open>
  C4 (as amended).  Let an application whose marker is still \<open>true\<close> be mounted under a
  parent whose \<open>trust proxy fn\<close> is a function.  After the mount its own \<open>trust proxy\<close> and
  \<open>trust proxy fn\<close> are deleted, its prototype is the parent's settings, and reading
  \<open>trust proxy fn\<close> on it gives the parent's function; the parent reads as before.  A read
  of a name that an object does not have itself is the read on its prototype, so the
  parent's later values are seen as well.
  A call \<open>set("trust proxy", v)\<close> returns exactly when \<open>compileTrust\<close> accepts \<open>v\<close>; a call
  that returns leaves the marker \<open>false\<close>, with the value and its compiled function as own
  properties.  A call in which \<open>compileTrust\<close> throws has written the value, and leaves the
  marker and \<open>trust proxy fn\<close> as they were.  No call of \<open>set\<close> and no mount makes a \<open>false\<close>
  marker \<open>true\<close> again, and a mount leaves the own properties of an application with a
  \<open>false\<close> marker as they are.  So an application on which a call \<open>set("trust proxy", v)\<close> has
  ever returned has a \<open>false\<close> marker in every later store, whatever calls of \<open>set\<close> and
  whatever mounts came between, and a mount of it leaves its own properties as they are.
  On a store whose chains end the mount has a result, and after a mount the chains still
  end.
\<close>

theorem trust_proxy_inheritance:
  "(onmount h this parent = Some (Inr (), h') \<and> chain_lookup default_marker h this = Some (Some True)
      \<and> app_get h parent ''trust proxy fn'' = Some fn \<and> is_function fn \<longrightarrow>
      own (h' this) ''trust proxy'' = None \<and> own (h' this) ''trust proxy fn'' = None
      \<and> proto (h' this) = Some parent
      \<and> app_get h' this ''trust proxy fn'' = Some fn
      \<and> app_get h' parent ''trust proxy fn'' = Some fn)
   \<and> (app_set pc h a ''trust proxy'' v = (Inr (), h1) \<longrightarrow>
      default_marker (h1 a) = Some False \<and> own (h1 a) ''trust proxy'' = Some (Raw v)
      \<and> (\<exists>f. compileTrust pc v = Inr f
            \<and> own (h1 a) ''trust proxy fn'' = Some (Compiled (TrustFn f)))
      \<and> chain_lookup default_marker h1 a = Some (Some False))
   \<and> (default_marker (h a) = Some False \<longrightarrow>
      default_marker (snd (app_set pc h b k v) a) = Some False)
   \<and> (onmount h this parent = Some (res, h2) \<longrightarrow> default_marker (h2 a) = default_marker (h a))
   \<and> (onmount h this parent = Some (res, h2) \<and> default_marker (h this) = Some False \<longrightarrow>
      own (h2 this) = own (h this))
   \<and> (own (g c) k = None \<and> proto (g c) = Some p \<longrightarrow> app_get g c k = app_get g p k)
   \<and> (finite_chain h this \<and> finite_chain h parent \<longrightarrow> onmount h this parent \<noteq> None)
   \<and> (onmount h this parent = Some (Inr (), h') \<and> (\<forall>r. finite_chain h r) \<longrightarrow>
      (\<forall>r. finite_chain h' r))
   \<and> ((\<exists>hs. app_set pc h a ''trust proxy'' v = (Inr (), hs)) = (\<exists>f. compileTrust pc v = Inr f))
   \<and> (compileTrust pc v = Inl err \<longrightarrow>
      app_set pc h a ''trust proxy'' v = (Inl err, assign h a ''trust proxy'' (Raw v))
      \<and> default_marker (assign h a ''trust proxy'' (Raw v) a) = default_marker (h a))
   \<and> (app_set pc h a ''trust proxy'' v = (Inr (), h1) \<and> later pc h1 hl
        \<and> onmount hl a parent = Some (res, hm) \<longrightarrow>
      default_marker (hl a) = Some False \<and> own (hm a) = own (hl a)
      \<and> default_marker (hm a) = Some False)"
proof (intro conjI impI allI)
  assume "onmount h this parent = Some (Inr (), h') \<and>
    chain_lookup default_marker h this = Some (Some True) \<and>
    app_get h parent ''trust proxy fn'' = Some fn \<and> is_function fn"
  then have i: "own (h' this) ''trust proxy'' = None \<and> own (h' this) ''trust proxy fn'' = None
         \<and> proto (h' this) = Some parent
         \<and> app_get h' this ''trust proxy fn'' = Some fn
         \<and> app_get h' parent ''trust proxy fn'' = Some fn"
    using onmount_inherits by blast
  from i show "own (h' this) ''trust proxy'' = None" by simp
  from i show "own (h' this) ''trust proxy fn'' = None" by simp
  from i show "proto (h' this) = Some parent" by simp
  from i show "app_get h' this ''trust proxy fn'' = Some fn" by simp
  from i show "app_get h' parent ''trust proxy fn'' = Some fn" by simp
next
  assume s: "app_set pc h a ''trust proxy'' v = (Inr (), h1)"
  note r = app_set_trust_proxy [OF s]
  from r show "default_marker (h1 a) = Some False" by simp
  from r show "own (h1 a) ''trust proxy'' = Some (Raw v)" by simp
  from r show "\<exists>f. compileTrust pc v = Inr f
            \<and> own (h1 a) ''trust proxy fn'' = Some (Compiled (TrustFn f))" by simp
  from r show "chain_lookup default_marker h1 a = Some (Some False)" by simp
next
  assume "default_marker (h a) = Some False"
  then show "default_marker (snd (app_set pc h b k v) a) = Some False"
    by (rule app_set_keeps_explicit)
next
  assume "onmount h this parent = Some (res, h2)"
  then show "default_marker (h2 a) = default_marker (h a)"
    by (rule onmount_frame(1))
next
  assume "onmount h this parent = Some (res, h2) \<and> default_marker (h this) = Some False"
  then show "own (h2 this) = own (h this)"
    using onmount_frame(3) by blast
next
  assume "own (g c) k = None \<and> proto (g c) = Some p"
  then show "app_get g c k = app_get g p k"
    unfolding app_get_def by (subst chain_lookup.simps) simp
next
  assume "finite_chain h this \<and> finite_chain h parent"
  then show "onmount h this parent \<noteq> None"
    using onmount_returns [of h this parent] by auto
next
  fix r
  assume "onmount h this parent = Some (Inr (), h') \<and> (\<forall>r. finite_chain h r)"
  then show "finite_chain h' r"
    using onmount_keeps_chains_finite by blast
next
  show "(\<exists>hs. app_set pc h a ''trust proxy'' v = (Inr (), hs)) = (\<exists>f. compileTrust pc v = Inr f)"
    by (rule app_set_returns_iff)
next
  assume "compileTrust pc v = Inl err"
  then show "app_set pc h a ''trust proxy'' v = (Inl err, assign h a ''trust proxy'' (Raw v))"
    by (rule app_set_throws)
next
  show "default_marker (assign h a ''trust proxy'' (Raw v) a) = default_marker (h a)"
    by (rule assign_marker)
next
  assume e: "app_set pc h a ''trust proxy'' v = (Inr (), h1) \<and> later pc h1 hl
        \<and> onmount hl a parent = Some (res, hm)"
  then have s: "app_set pc h a ''trust proxy'' v = (Inr (), h1)" and l: "later pc h1 hl"
    and m: "onmount hl a parent = Some (res, hm)" by simp_all
  show "default_marker (hl a) = Some False" using s l m by (rule explicit_kept_ever(1))
  show "own (hm a) = own (hl a)" using s l m by (rule explicit_kept_ever(2))
  show "default_marker (hm a) = Some False" using s l m by (rule explicit_kept_ever(3))
qed

lemmas example_store_defs =
  parent_trusting_def two_apps_def default_trust_proxy_def app_set_def example_compile_def
  define_marker_def assign_def empty_store_def trustProxyDefaultSymbol_def Let_def

lemma parent_trusting_facts:
  "own (parent_trusting 2) ''trust proxy fn'' = Some (Compiled (TrustFn trust_all))"
  "default_marker (parent_trusting 2) = Some False"
  "default_marker (parent_trusting 3) = Some True"
  "own (parent_trusting 3) ''trust proxy'' = Some (Raw (TBool False))"
  "proto (parent_trusting 2) = None"
  "proto (parent_trusting 3) = None"
  by (simp_all add: example_store_defs)

lemma parent_trusting_lookups:
  "chain_lookup default_marker parent_trusting 3 = Some (Some True)"
  "app_get parent_trusting 2 ''trust proxy fn'' = Some (Some (Compiled (TrustFn trust_all)))"
  by (simp_all add: app_get_def chain_lookup.simps [of _ parent_trusting] parent_trusting_facts)

lemma parent_trusting_mount:
  "onmount parent_trusting 3 2 =
     Some (Inr (), (delete_trust_proxy parent_trusting 3)
                     (3 := (delete_trust_proxy parent_trusting 3 3)\<lparr>proto := Some 2\<rparr>))"
proof -
  have "on_chain (delete_trust_proxy parent_trusting 3) 2 3 = Some False"
    by (simp add: on_chain.simps [of _ 2 3] delete_trust_proxy_def parent_trusting_facts)
  then show ?thesis
    by (simp add: onmount_def parent_trusting_lookups Let_def)
qed

lemma compileTrust_bogus:
  "compileTrust example_compile (TStr ''bogus'') = Inl (TypeError ''invalid IP address: bogus'')"
proof -
  have "split_comma ''bogus'' = [''bogus'']"
    unfolding split_comma_def by (subst split_loop_no_comma) simp_all
  then show ?thesis by (simp add: example_compile_def)
qed

lemma rejected_set_eq:
  "app_set example_compile parent_trusting 3 ''trust proxy'' (TStr ''bogus'') =
     (Inl (TypeError ''invalid IP address: bogus''),
      assign parent_trusting 3 ''trust proxy'' (Raw (TStr ''bogus'')))"
  using compileTrust_bogus by (rule app_set_throws)

lemma rejected_set_facts:
  "rejected_set = assign parent_trusting 3 ''trust proxy'' (Raw (TStr ''bogus''))"
  "own (rejected_set 3) ''trust proxy'' = Some (Raw (TStr ''bogus''))"
  "default_marker (rejected_set 3) = Some True"
  "own (rejected_set 2) ''trust proxy fn'' = Some (Compiled (TrustFn trust_all))"
  "proto (rejected_set 2) = None"
  "proto (rejected_set 3) = None"
  by (simp_all add: rejected_set_def rejected_set_eq assign_def parent_trusting_facts)

lemma rejected_set_lookups:
  "chain_lookup default_marker rejected_set 3 = Some (Some True)"
  "app_get rejected_set 2 ''trust proxy fn'' = Some (Some (Compiled (TrustFn trust_all)))"
  by (simp_all add: app_get_def chain_lookup.simps [of _ rejected_set] rejected_set_facts(2-))

lemma rejected_set_mount:
  "onmount rejected_set 3 2 =
     Some (Inr (), (delete_trust_proxy rejected_set 3)
                     (3 := (delete_trust_proxy rejected_set 3 3)\<lparr>proto := Some 2\<rparr>))"
proof -
  have "on_chain (delete_trust_proxy rejected_set 3) 2 3 = Some False"
    by (simp add: on_chain.simps [of _ 2 3] delete_trust_proxy_def rejected_set_facts(2-))
  then show ?thesis
    by (simp add: onmount_def rejected_set_lookups Let_def)
qed

text \<open>
  The instances of C4: the application 3, at its defaults, mounted under the application
  2, whose \<open>trust proxy\<close> was set to \<open>true\<close>, reads the parent's function; the application
  2, mounted under 3, keeps its own properties, and keeps them as well when a call of
  \<open>set\<close> that throws came between.
\<close>

theorem trust_proxy_inheritance_witness:
  "(case onmount parent_trusting 3 2 of
      None \<Rightarrow> False
    | Some (res, h') \<Rightarrow>
        res = Inr ()
        \<and> app_get h' 3 ''trust proxy fn'' = Some (Some (Compiled (TrustFn trust_all)))
        \<and> own (h' 3) ''trust proxy'' = None)
   \<and> default_marker (parent_trusting 2) = Some False
   \<and> (case onmount parent_trusting 2 3 of
      None \<Rightarrow> False
    | Some (res, h') \<Rightarrow> own (h' 2) = own (parent_trusting 2))
   \<and> (case onmount (snd (app_set example_compile parent_trusting 2 ''trust proxy''
                            (TStr ''bogus''))) 2 3 of
      None \<Rightarrow> False
    | Some (res, h') \<Rightarrow>
        own (h' 2) ''trust proxy fn'' = Some (Compiled (TrustFn trust_all))
        \<and> default_marker (h' 2) = Some False)"
proof -
  obtain h' where m: "onmount parent_trusting 3 2 = Some (Inr (), h')"
    using parent_trusting_mount by simp
  have inh: "app_get h' 3 ''trust proxy fn'' = Some (Some (Compiled (TrustFn trust_all)))
      \<and> own (h' 3) ''trust proxy'' = None"
    using trust_proxy_inheritance [where h = parent_trusting and this = 3 and parent = 2
        and h' = h' and fn = "Some (Compiled (TrustFn trust_all))"]
      m parent_trusting_lookups
    by simp
  have fin: "finite_chain parent_trusting 2" "finite_chain parent_trusting 3"
    by (simp_all add: chain_end parent_trusting_facts)
  then obtain res h2 where m2: "onmount parent_trusting 2 3 = Some (res, h2)"
    using trust_proxy_inheritance [where h = parent_trusting and this = 2 and parent = 3]
    by fastforce
  have "own (h2 2) = own (parent_trusting 2)"
    using trust_proxy_inheritance [where h = parent_trusting and this = 2 and parent = 3
        and res = res and ?h2.0 = h2]
      m2 parent_trusting_facts(2)
    by simp
  note first = this
  let ?hl = "snd (app_set example_compile parent_trusting 2 ''trust proxy'' (TStr ''bogus''))"
  have hl: "?hl = assign parent_trusting 2 ''trust proxy'' (Raw (TStr ''bogus''))"
    using app_set_throws [OF compileTrust_bogus, of parent_trusting 2] by simp
  have set: "app_set example_compile two_apps 2 ''trust proxy'' (TBool True)
      = (Inr (), parent_trusting)"
    by (simp add: parent_trusting_def app_set_def trustProxyDefaultSymbol_def Let_def)
  have lat: "later example_compile parent_trusting ?hl"
    by (rule later_set) (rule later_now)
  have "finite_chain ?hl 2" "finite_chain ?hl 3"
    by (simp_all add: chain_end hl assign_def parent_trusting_facts)
  then obtain res3 h3 where m3: "onmount ?hl 2 3 = Some (res3, h3)"
    using onmount_returns by blast
  have "own (h3 2) = own (?hl 2) \<and> default_marker (h3 2) = Some False"
    using trust_proxy_inheritance [where pc = example_compile and h = two_apps and a = 2
        and v = "TBool True" and ?h1.0 = parent_trusting and hl = ?hl and parent = 3
        and res = res3 and hm = h3]
      set lat m3
    by simp
  then have "own (h3 2) ''trust proxy fn'' = Some (Compiled (TrustFn trust_all))
      \<and> default_marker (h3 2) = Some False"
    by (simp add: hl assign_def parent_trusting_facts)
  with m inh m2 first m3 show ?thesis
    by (simp add: parent_trusting_facts)
qed

text \<open>
  C4 as stated fails for a call of \<open>set\<close> that throws.  On the application 3, at its
  defaults, \<open>set("trust proxy", "bogus")\<close> is called directly; the compiler rejects the
  address and the call throws.  The value is written, the marker is still \<open>true\<close>, and the
  mount under the application 2 deletes the value: the application did not keep its own
  values, and the call did not reset the marker.
\<close>

theorem trust_proxy_rejected_set_counterexample:
  "fst (app_set example_compile parent_trusting 3 ''trust proxy'' (TStr ''bogus''))
     = Inl (TypeError ''invalid IP address: bogus'')
   \<and> own (rejected_set 3) ''trust proxy'' = Some (Raw (TStr ''bogus''))
   \<and> default_marker (rejected_set 3) = Some True
   \<and> (case onmount rejected_set 3 2 of
        None \<Rightarrow> False
      | Some (res, h') \<Rightarrow>
          res = Inr () \<and> own (h' 3) ''trust proxy'' = None
          \<and> own (h' 3) \<noteq> own (rejected_set 3)
          \<and> app_get h' 3 ''trust proxy fn'' = Some (Some (Compiled (TrustFn trust_all))))"
proof -
  let ?h = "(delete_trust_proxy rejected_set 3)
              (3 := (delete_trust_proxy rejected_set 3 3)\<lparr>proto := Some 2\<rparr>)"
  have del: "own (?h 3) ''trust proxy'' = None" "own (?h 3) ''trust proxy fn'' = None"
    "proto (?h 3) = Some 2" "own (?h 2) ''trust proxy fn'' = Some (Compiled (TrustFn trust_all))"
    by (simp_all add: delete_trust_proxy_def rejected_set_facts(2-))
  from del(1) rejected_set_facts(2) have ne: "own (?h 3) \<noteq> own (rejected_set 3)"
    by (metis option.distinct(1))
  have "app_get ?h 3 ''trust proxy fn'' = Some (Some (Compiled (TrustFn trust_all)))"
    unfolding app_get_def
    by (subst chain_lookup.simps, simp only: del option.case)
       (subst chain_lookup.simps, simp only: del option.case)
  with del ne show ?thesis
    by (simp add: rejected_set_eq rejected_set_facts(2-) rejected_set_mount)
qed

end
